theory Spec2Isabelle
  imports Main "HOL-Library.Word" "HOL-Library.List_Lexorder" "HOL-Library.AList"
begin

chapter \<open>SonicChat: relay handlers, message buffer, friend requests, encryption layer\<close>

text \<open>
  A shallow embedding of the parts of the repository that the specification talks about:
  the socket relay (\<^verbatim>\<open>server/src/socket/handlers.ts\<close>), the friend-request routes
  (\<^verbatim>\<open>server/src/routes/friends.ts\<close>), the message routes
  (\<^verbatim>\<open>server/src/routes/messages.ts\<close>) and the client's encryption layer
  (\<^verbatim>\<open>client/src/utils/encryption.ts\<close>, \<^verbatim>\<open>client/src/hooks/useEncryption.ts\<close>).
  All definitions come first; the lemmas and the theorems follow.
\<close>

section \<open>Definitions\<close>

subsection \<open>JavaScript strings\<close>

text \<open>
  A JavaScript string is a sequence of UTF-16 code units. The relational operators and the
  default comparison of \<^verbatim>\<open>Array.prototype.sort\<close> order strings lexicographically by
  code unit, which is the order that the library theory List_Lexorder puts on lists of
  16-bit words. \<open>str\<close> writes an ASCII literal of the source as such a string.
\<close>

type_synonym jsstring = "16 word list"

definition str :: "string \<Rightarrow> jsstring" where
  "str s = map (\<lambda>c. of_nat (of_char c)) s"

text \<open>
  Truthiness of an optional string (\<^verbatim>\<open>string | undefined\<close>): \<^verbatim>\<open>undefined\<close> and the
  empty string are falsy.
\<close>

fun truthy :: "jsstring option \<Rightarrow> bool" where
  "truthy None = False"
| "truthy (Some s) = (s \<noteq> [])"

fun falsy :: "jsstring option \<Rightarrow> bool" where
  "falsy None = True"
| "falsy (Some s) = (s = [])"

text \<open>\<^verbatim>\<open>a || b\<close> on optional strings: the first operand when it is truthy, else the second.\<close>

definition js_or :: "jsstring option \<Rightarrow> jsstring option \<Rightarrow> jsstring option" where
  "js_or a b = (if truthy a then a else b)"

text \<open>\<^verbatim>\<open>Array.prototype.join\<close> on an array of strings.\<close>

fun join :: "jsstring \<Rightarrow> jsstring list \<Rightarrow> jsstring" where
  "join sep [] = []"
| "join sep [x] = x"
| "join sep (x # y # ys) = x @ sep @ join sep (y # ys)"

text \<open>
  \<^verbatim>\<open>Array.prototype.sort()\<close> with no comparator, on an array of strings: ascending in the
  code-unit order, stable.
\<close>

definition js_sort :: "jsstring list \<Rightarrow> jsstring list" where
  "js_sort xs = sort xs"

subsection \<open>Direct-message room identifier\<close>

text \<open>
  The expression
  \<^verbatim>\<open>`dm_${[socket.odlserId, data.recipientId].sort().join('_')}`\<close>
  of the \<^verbatim>\<open>send_private_message\<close> handler; the routes \<^verbatim>\<open>GET /dm/:recipientId\<close>
  (messages.ts) and \<^verbatim>\<open>GET /dm/:friendId\<close> (friends.ts) compute the same expression from
  \<^verbatim>\<open>req.userId\<close> and the path parameter.
\<close>

definition dmRoom :: "jsstring \<Rightarrow> jsstring \<Rightarrow> jsstring" where
  "dmRoom userId recipientId = str ''dm_'' @ join (str ''_'') (js_sort [userId, recipientId])"

subsection \<open>In-memory message store\<close>

record StoredMessage =
  msg_id :: jsstring
  content :: jsstring
  sender :: jsstring
  senderUsername :: jsstring
  room :: jsstring
  msg_type :: jsstring
  time :: jsstring

text \<open>\<^verbatim>\<open>const messageStore = new Map<string, StoredMessage[]>()\<close>\<close>

type_synonym messageStore = "jsstring \<rightharpoonup> StoredMessage list"

definition messageStore_init :: messageStore where
  "messageStore_init = Map.empty"

text \<open>
  \<^verbatim>\<open>addMessageToStore\<close>: create the room's array when it is missing, push the message,
  and shift the oldest entry out when the array has grown beyond 100.
\<close>

definition addMessageToStore :: "messageStore \<Rightarrow> jsstring \<Rightarrow> StoredMessage \<Rightarrow> messageStore" where
  "addMessageToStore store rm message =
     (let messages = (case store rm of None \<Rightarrow> [] | Some ms \<Rightarrow> ms) @ [message]
      in store(rm \<mapsto> (if length messages > 100 then tl messages else messages)))"

text \<open>\<^verbatim>\<open>getMessagesFromStore\<close>: \<^verbatim>\<open>messageStore.get(room) || []\<close>.\<close>

definition getMessagesFromStore :: "messageStore \<Rightarrow> jsstring \<Rightarrow> StoredMessage list" where
  "getMessagesFromStore store rm = (case store rm of None \<Rightarrow> [] | Some ms \<Rightarrow> ms)"

text \<open>A sequence of appends, each to its own room, applied in order.\<close>

fun appends :: "messageStore \<Rightarrow> (jsstring \<times> StoredMessage) list \<Rightarrow> messageStore" where
  "appends store [] = store"
| "appends store (p # ps) = appends (addMessageToStore store (fst p) (snd p)) ps"

text \<open>The messages that a sequence of appends sends to one room, in the order of the appends.\<close>

definition for_room :: "jsstring \<Rightarrow> (jsstring \<times> StoredMessage) list \<Rightarrow> StoredMessage list" where
  "for_room rm ps = map snd (filter (\<lambda>p. fst p = rm) ps)"

subsection \<open>Relay state\<close>

text \<open>
  The value type of \<^verbatim>\<open>onlineUsers\<close>. \<open>rooms\<close> is a JavaScript \<^verbatim>\<open>Set\<close> of strings,
  kept as a list without duplicates in insertion order (the order \<^verbatim>\<open>forEach\<close> visits).
\<close>

record UserData =
  odlserId :: jsstring
  username :: jsstring
  rooms :: "jsstring list"
  firebaseUid :: "jsstring option"

text \<open>
  \<^verbatim>\<open>interface AuthenticatedSocket extends Socket\<close>: the socket's id and the three fields
  the authentication middleware sets.
\<close>

record AuthenticatedSocket =
  sock_id :: jsstring
  sock_odlserId :: "jsstring option"
  sock_username :: "jsstring option"
  sock_firebaseUid :: "jsstring option"

text \<open>\<^verbatim>\<open>Set.prototype.add\<close> and \<^verbatim>\<open>Set.prototype.delete\<close> on such a list.\<close>

definition set_add :: "jsstring \<Rightarrow> jsstring list \<Rightarrow> jsstring list" where
  "set_add x xs = (if x \<in> set xs then xs else xs @ [x])"

definition set_delete :: "jsstring \<Rightarrow> jsstring list \<Rightarrow> jsstring list" where
  "set_delete x xs = removeAll x xs"

text \<open>
  The process state: the two registry maps and the message store of handlers.ts, and the
  part of socket.io's adapter that the handlers reach through \<^verbatim>\<open>socket.join\<close>,
  \<^verbatim>\<open>socket.leave\<close>, \<^verbatim>\<open>io.to\<close> and \<^verbatim>\<open>socket.to\<close>. The adapter keeps two maps: \<open>sids\<close>
  gives for every connected socket id the rooms it has joined, and \<open>adapter_rooms\<close> gives
  for every room the ids of the sockets in it, in the order in which they joined. The
  JavaScript maps are association lists updated by
  \<open>AList.update\<close> (a present key keeps its place, a new key goes to the end, as
  \<^verbatim>\<open>Map.prototype.set\<close> does) and \<open>AList.delete\<close>.
\<close>

record relay =
  sids :: "(jsstring \<times> jsstring list) list"
  adapter_rooms :: "(jsstring \<times> jsstring list) list"
  onlineUsers :: "(jsstring \<times> UserData) list"
  userSockets :: "(jsstring \<times> jsstring) list"
  messageStore :: messageStore

definition relay_init :: relay where
  "relay_init = \<lparr>sids = [], adapter_rooms = [], onlineUsers = [], userSockets = [],
                 messageStore = messageStore_init\<rparr>"

text \<open>The payload of \<^verbatim>\<open>receive_message\<close>, as the \<^verbatim>\<open>send_message\<close> handler builds it.\<close>

record BroadcastMessage =
  b_id :: jsstring
  b_content :: jsstring
  b_senderId :: "jsstring option"
  b_senderUsername :: "jsstring option"
  b_room :: jsstring
  b_type :: jsstring
  b_createdAt :: nat
  b_sender :: "jsstring option"
  b_time :: jsstring

text \<open>The events the relay emits, named as on the wire.\<close>

datatype payload =
    user_status_change "jsstring option" "jsstring option" jsstring
  | user_joined "jsstring option" "jsstring option" jsstring
  | user_left "jsstring option" "jsstring option" jsstring
  | room_users jsstring "(jsstring \<times> jsstring) list"
  | receive_message BroadcastMessage
  | receive_private_message StoredMessage
  | error_event jsstring

text \<open>A delivery: the id of the socket that receives the event, and the event.\<close>

type_synonym delivery = "jsstring \<times> payload"

text \<open>The sockets in a room, in the order in which they joined it.\<close>

definition room_sockets :: "relay \<Rightarrow> jsstring \<Rightarrow> jsstring list" where
  "room_sockets st rm = (case map_of (adapter_rooms st) rm of None \<Rightarrow> [] | Some members \<Rightarrow> members)"

text \<open>
  \<^verbatim>\<open>socket.emit\<close> reaches the socket itself; \<^verbatim>\<open>io.emit\<close> every connected socket, in the
  order of \<open>sids\<close>; \<^verbatim>\<open>io.to(room).emit\<close> every socket in the room, in the order in which
  they joined it; \<^verbatim>\<open>socket.to(room).emit\<close> the same but for the socket itself.
\<close>

definition socket_emit :: "AuthenticatedSocket \<Rightarrow> payload \<Rightarrow> delivery list" where
  "socket_emit sock ev = [(sock_id sock, ev)]"

definition io_emit :: "relay \<Rightarrow> payload \<Rightarrow> delivery list" where
  "io_emit st ev = map (\<lambda>p. (fst p, ev)) (sids st)"

definition io_to :: "relay \<Rightarrow> jsstring \<Rightarrow> payload \<Rightarrow> delivery list" where
  "io_to st rm ev = map (\<lambda>sid. (sid, ev)) (room_sockets st rm)"

definition socket_to :: "relay \<Rightarrow> AuthenticatedSocket \<Rightarrow> jsstring \<Rightarrow> payload \<Rightarrow> delivery list" where
  "socket_to st sock rm ev =
     map (\<lambda>sid. (sid, ev)) (filter (\<lambda>sid. sid \<noteq> sock_id sock) (room_sockets st rm))"

text \<open>
  \<^verbatim>\<open>socket.join(room)\<close>: the adapter adds the room to the socket's set and the socket to
  the room's set, creating either set when it is missing.
\<close>

definition socket_join :: "relay \<Rightarrow> jsstring \<Rightarrow> jsstring \<Rightarrow> relay" where
  "socket_join st sid rm =
     st\<lparr>sids := AList.update sid
          (set_add rm (case map_of (sids st) sid of None \<Rightarrow> [] | Some rs \<Rightarrow> rs)) (sids st),
        adapter_rooms := AList.update rm (set_add sid (room_sockets st rm)) (adapter_rooms st)\<rparr>"

text \<open>
  The adapter takes a socket out of a room's set, and drops the room when the set has
  become empty.
\<close>

definition room_del :: "jsstring \<Rightarrow> jsstring \<Rightarrow> relay \<Rightarrow> relay" where
  "room_del sid rm st =
     (case map_of (adapter_rooms st) rm of
        None \<Rightarrow> st
      | Some members \<Rightarrow>
          st\<lparr>adapter_rooms :=
               (if set_delete sid members = [] then AList.delete rm (adapter_rooms st)
                else AList.update rm (set_delete sid members) (adapter_rooms st))\<rparr>)"

text \<open>\<^verbatim>\<open>socket.leave(room)\<close>\<close>

definition socket_leave :: "relay \<Rightarrow> jsstring \<Rightarrow> jsstring \<Rightarrow> relay" where
  "socket_leave st sid rm =
     room_del sid rm
       (case map_of (sids st) sid of
          None \<Rightarrow> st
        | Some rs \<Rightarrow> st\<lparr>sids := AList.update sid (set_delete rm rs) (sids st)\<rparr>)"

text \<open>What socket.io does to the adapter when a socket closes: it leaves all its rooms.\<close>

definition socket_leave_all :: "relay \<Rightarrow> jsstring \<Rightarrow> relay" where
  "socket_leave_all st sid =
     (case map_of (sids st) sid of
        None \<Rightarrow> st
      | Some rs \<Rightarrow> (fold (room_del sid) rs st)\<lparr>sids := AList.delete sid (sids st)\<rparr>)"

subsection \<open>Session registry\<close>

text \<open>
  The registry is the pair \<^verbatim>\<open>onlineUsers\<close>, \<^verbatim>\<open>userSockets\<close>. Its four operations are
  the blocks of the handlers that touch the two maps: the connection handler's
  \<^verbatim>\<open>if (socket.odlserId && socket.username) { onlineUsers.set(...); userSockets.set(...) }\<close>,
  the \<^verbatim>\<open>rooms.add\<close> of \<^verbatim>\<open>join_room\<close>, the \<^verbatim>\<open>rooms.delete\<close> of \<^verbatim>\<open>leave_room\<close>, and the
  two deletions at the end of the disconnect handler.
\<close>

definition register :: "relay \<Rightarrow> AuthenticatedSocket \<Rightarrow> relay" where
  "register st sock =
     (case sock_odlserId sock of
        None \<Rightarrow> st
      | Some uid \<Rightarrow>
         (case sock_username sock of
            None \<Rightarrow> st
          | Some name \<Rightarrow>
             if uid = [] \<or> name = [] then st
             else st\<lparr>onlineUsers := AList.update (sock_id sock)
                        \<lparr>odlserId = uid, username = name, rooms = [],
                         firebaseUid = sock_firebaseUid sock\<rparr> (onlineUsers st),
                     userSockets := AList.update uid (sock_id sock) (userSockets st)\<rparr>))"

definition joinRoom :: "relay \<Rightarrow> jsstring \<Rightarrow> jsstring \<Rightarrow> relay" where
  "joinRoom st sid rm =
     (case map_of (onlineUsers st) sid of
        None \<Rightarrow> st
      | Some userData \<Rightarrow>
          st\<lparr>onlineUsers :=
               AList.update sid (userData\<lparr>rooms := set_add rm (rooms userData)\<rparr>) (onlineUsers st)\<rparr>)"

definition leaveRoom :: "relay \<Rightarrow> jsstring \<Rightarrow> jsstring \<Rightarrow> relay" where
  "leaveRoom st sid rm =
     (case map_of (onlineUsers st) sid of
        None \<Rightarrow> st
      | Some userData \<Rightarrow>
          st\<lparr>onlineUsers :=
               AList.update sid (userData\<lparr>rooms := set_delete rm (rooms userData)\<rparr>) (onlineUsers st)\<rparr>)"

definition unregister :: "relay \<Rightarrow> AuthenticatedSocket \<Rightarrow> relay" where
  "unregister st sock =
     (let st1 = st\<lparr>onlineUsers := AList.delete (sock_id sock) (onlineUsers st)\<rparr>
      in case sock_odlserId sock of
           None \<Rightarrow> st1
         | Some uid \<Rightarrow>
             if uid = [] then st1
             else st1\<lparr>userSockets := AList.delete uid (userSockets st1)\<rparr>)"

text \<open>
  \<^verbatim>\<open>Array.from(onlineUsers.values()).filter(u => u.rooms.has(room)).map(...)\<close>, and the
  connections behind it: the keys of \<^verbatim>\<open>onlineUsers\<close> whose room set holds the room.
\<close>

definition roomUsers :: "relay \<Rightarrow> jsstring \<Rightarrow> (jsstring \<times> jsstring) list" where
  "roomUsers st rm =
     map (\<lambda>u. (odlserId u, username u)) (filter (\<lambda>u. rm \<in> set (rooms u)) (map snd (onlineUsers st)))"

definition roomMembers :: "relay \<Rightarrow> jsstring \<Rightarrow> jsstring list" where
  "roomMembers st rm = map fst (filter (\<lambda>p. rm \<in> set (rooms (snd p))) (onlineUsers st))"

text \<open>\<^verbatim>\<open>userSockets.get(id)\<close>\<close>

definition resolveConnection :: "relay \<Rightarrow> jsstring \<Rightarrow> jsstring option" where
  "resolveConnection st uid = map_of (userSockets st) uid"

text \<open>A sequence of registry operations, applied in order.\<close>

datatype regop =
    Register AuthenticatedSocket
  | JoinRoom jsstring jsstring
  | LeaveRoom jsstring jsstring
  | Unregister AuthenticatedSocket

fun apply_op :: "relay \<Rightarrow> regop \<Rightarrow> relay" where
  "apply_op st (Register sock) = register st sock"
| "apply_op st (JoinRoom sid rm) = joinRoom st sid rm"
| "apply_op st (LeaveRoom sid rm) = leaveRoom st sid rm"
| "apply_op st (Unregister sock) = unregister st sock"

definition run_ops :: "relay \<Rightarrow> regop list \<Rightarrow> relay" where
  "run_ops st ops = foldl apply_op st ops"

text \<open>
  Mutual consistency of the two maps: no connection is listed twice, and the identity of
  every listed connection resolves to that connection.
\<close>

definition consistent :: "relay \<Rightarrow> bool" where
  "consistent st =
     (distinct (map fst (onlineUsers st)) \<and>
      list_all (\<lambda>p. resolveConnection st (odlserId (snd p)) = Some (fst p)) (onlineUsers st))"

text \<open>
  An operation respects the single-session assumption in a state when it does not put one
  identity on two connections: a \<open>Register\<close> is for an identity that no listed connection
  holds, and an \<open>Unregister\<close> is for a socket whose identity no other listed connection
  holds. \<open>exclusive\<close> checks every operation of a sequence in the state it is applied to.
\<close>

fun op_exclusive :: "relay \<Rightarrow> regop \<Rightarrow> bool" where
  "op_exclusive st (Register sock) =
     list_all (\<lambda>p. Some (odlserId (snd p)) \<noteq> sock_odlserId sock) (onlineUsers st)"
| "op_exclusive st (Unregister sock) =
     list_all (\<lambda>p. fst p = sock_id sock \<or> Some (odlserId (snd p)) \<noteq> sock_odlserId sock)
       (onlineUsers st)"
| "op_exclusive st (JoinRoom sid rm) = True"
| "op_exclusive st (LeaveRoom sid rm) = True"

fun exclusive :: "relay \<Rightarrow> regop list \<Rightarrow> bool" where
  "exclusive st [] = True"
| "exclusive st (x # xs) = (op_exclusive st x \<and> exclusive (apply_op st x) xs)"

subsection \<open>Authentication middleware\<close>

text \<open>
  \<^verbatim>\<open>socket.handshake.auth\<close>, and what the two Firestore calls of the middleware can
  give back: \<^verbatim>\<open>getDocs\<close> the matching user documents (each an id and its optional
  \<^verbatim>\<open>username\<close> field) or a rejection, \<^verbatim>\<open>updateDoc\<close> nothing or a rejection. The outcome
  of a Firestore call is an input of the model.
\<close>

record handshake_auth =
  auth_token :: "jsstring option"
  auth_firebaseUid :: "jsstring option"
  auth_username :: "jsstring option"

datatype firestore_error = FirestoreError jsstring

datatype next_result = next_ok AuthenticatedSocket | next_error jsstring

text \<open>
  \<^verbatim>\<open>io.use(async (socket, next) => { try { ... } catch (error) { next(new Error('Authentication failed')) } })\<close>.
  The status update is awaited inside the \<^verbatim>\<open>try\<close>, before \<^verbatim>\<open>next()\<close>.
\<close>

definition authenticate ::
  "jsstring \<Rightarrow> handshake_auth \<Rightarrow> firestore_error + (jsstring \<times> jsstring option) list \<Rightarrow>
   firestore_error + unit \<Rightarrow> next_result" where
  "authenticate sid auth getDocs_result updateDoc_result =
     (if falsy (auth_token auth) \<or> falsy (auth_firebaseUid auth)
      then next_error (str ''Authentication required'')
      else case getDocs_result of
        Inl e \<Rightarrow> next_error (str ''Authentication failed'')
      | Inr [] \<Rightarrow> next_error (str ''User not found'')
      | Inr (userDoc # others) \<Rightarrow>
          (case updateDoc_result of
             Inl e \<Rightarrow> next_error (str ''Authentication failed'')
           | Inr u \<Rightarrow> next_ok \<lparr>sock_id = sid,
                               sock_odlserId = Some (fst userDoc),
                               sock_username = js_or (snd userDoc) (auth_username auth),
                               sock_firebaseUid = auth_firebaseUid auth\<rparr>))"

subsection \<open>Event handlers\<close>

text \<open>
  Every handler takes the state and the socket it was installed for and returns the new
  state and the deliveries it emits, in order. Clock readings, generated ids and the
  outcomes of Firestore calls are arguments. A handler is run to its end in one step.
\<close>

text \<open>
  \<^verbatim>\<open>io.on('connection', ...)\<close>: socket.io has put the socket into the room named by its own
  id before the handler runs.
\<close>

definition on_connection :: "relay \<Rightarrow> AuthenticatedSocket \<Rightarrow> relay \<times> delivery list" where
  "on_connection st sock =
     (let st1 = socket_join st (sock_id sock) (sock_id sock);
          st2 = register st1 sock
      in (st2, io_emit st2
                 (user_status_change (sock_odlserId sock) (sock_username sock) (str ''online''))))"

definition on_join_room :: "relay \<Rightarrow> AuthenticatedSocket \<Rightarrow> jsstring \<Rightarrow> relay \<times> delivery list" where
  "on_join_room st sock rm =
     (let st1 = socket_join st (sock_id sock) rm;
          st2 = joinRoom st1 (sock_id sock) rm
      in (st2,
          socket_to st2 sock rm (user_joined (sock_odlserId sock) (sock_username sock) rm) @
          socket_emit sock (room_users rm (roomUsers st2 rm))))"

definition on_leave_room :: "relay \<Rightarrow> AuthenticatedSocket \<Rightarrow> jsstring \<Rightarrow> relay \<times> delivery list" where
  "on_leave_room st sock rm =
     (let st1 = socket_leave st (sock_id sock) rm;
          st2 = leaveRoom st1 (sock_id sock) rm
      in (st2, socket_to st2 sock rm (user_left (sock_odlserId sock) (sock_username sock) rm)))"

record MessageData =
  md_room :: jsstring
  md_content :: jsstring
  md_type :: "jsstring option"

record PrivateMessageData =
  recipientId :: jsstring
  pm_content :: jsstring
  pm_type :: "jsstring option"

text \<open>\<^verbatim>\<open>data.type || 'text'\<close>\<close>

fun or_text :: "jsstring option \<Rightarrow> jsstring" where
  "or_text None = str ''text''"
| "or_text (Some t) = (if t = [] then str ''text'' else t)"

text \<open>
  \<^verbatim>\<open>socket.on('send_message', ...)\<close>. \<open>addDoc_result\<close> is what
  \<^verbatim>\<open>await addDoc(collection(db, 'messages'), messageData)\<close> gives: the new document's id,
  or a rejection, which leaves the \<^verbatim>\<open>try\<close> block before the broadcast.
\<close>

definition on_send_message ::
  "relay \<Rightarrow> AuthenticatedSocket \<Rightarrow> MessageData \<Rightarrow> nat \<Rightarrow> jsstring \<Rightarrow>
   firestore_error + jsstring \<Rightarrow> relay \<times> delivery list" where
  "on_send_message st sock d createdAt now addDoc_result =
     (case addDoc_result of
        Inr docRef_id \<Rightarrow>
          (st, io_to st (md_room d)
                 (receive_message
                    \<lparr>b_id = docRef_id,
                     b_content = md_content d,
                     b_senderId = sock_odlserId sock,
                     b_senderUsername = sock_username sock,
                     b_room = md_room d,
                     b_type = or_text (md_type d),
                     b_createdAt = createdAt,
                     b_sender = sock_odlserId sock,
                     b_time = now\<rparr>))
      | Inl e \<Rightarrow> (st, socket_emit sock (error_event (str ''Failed to send message''))))"

text \<open>\<^verbatim>\<open>socket.username || 'Unknown'\<close>\<close>

fun or_unknown :: "jsstring option \<Rightarrow> jsstring" where
  "or_unknown None = str ''Unknown''"
| "or_unknown (Some n) = (if n = [] then str ''Unknown'' else n)"

text \<open>The message object that the \<^verbatim>\<open>send_private_message\<close> handler builds.\<close>

definition private_message ::
  "jsstring \<Rightarrow> AuthenticatedSocket \<Rightarrow> PrivateMessageData \<Rightarrow> jsstring \<Rightarrow> jsstring \<Rightarrow> StoredMessage" where
  "private_message uid sock d generated_id now =
     \<lparr>msg_id = generated_id,
      content = pm_content d,
      sender = uid,
      senderUsername = or_unknown (sock_username sock),
      room = dmRoom uid (recipientId d),
      msg_type = or_text (pm_type d),
      time = now\<rparr>"

text \<open>
  \<^verbatim>\<open>socket.on('send_private_message', ...)\<close>. The Firestore write sits in a
  \<^verbatim>\<open>try\<close>/\<^verbatim>\<open>catch\<close> of its own that only logs, so its outcome changes nothing.
\<close>

definition on_send_private_message ::
  "relay \<Rightarrow> AuthenticatedSocket \<Rightarrow> PrivateMessageData \<Rightarrow> jsstring \<Rightarrow> jsstring \<Rightarrow>
   firestore_error + jsstring \<Rightarrow> relay \<times> delivery list" where
  "on_send_private_message st sock d generated_id now addDoc_result =
     (case sock_odlserId sock of
        None \<Rightarrow> (st, socket_emit sock (error_event (str ''Authentication required'')))
      | Some uid \<Rightarrow>
          if uid = [] then (st, socket_emit sock (error_event (str ''Authentication required'')))
          else
            (let message = private_message uid sock d generated_id now;
                 st1 = st\<lparr>messageStore := addMessageToStore (messageStore st) (room message) message\<rparr>
             in (st1,
                 socket_emit sock (receive_private_message message) @
                 (case resolveConnection st1 (recipientId d) of
                    None \<Rightarrow> []
                  | Some recipientSocketId \<Rightarrow>
                      if recipientSocketId = [] then []
                      else io_to st1 recipientSocketId (receive_private_message message)))))"

text \<open>
  \<^verbatim>\<open>socket.on('disconnect', ...)\<close>: socket.io has taken the socket out of all its rooms
  before the handler runs. The status update has a \<^verbatim>\<open>try\<close>/\<^verbatim>\<open>catch\<close> of its own that
  only logs.
\<close>

definition on_disconnect ::
  "relay \<Rightarrow> AuthenticatedSocket \<Rightarrow> firestore_error + unit \<Rightarrow> relay \<times> delivery list" where
  "on_disconnect st sock updateDoc_result =
     (let st1 = socket_leave_all st (sock_id sock);
          left = (case map_of (onlineUsers st1) (sock_id sock) of
                    None \<Rightarrow> []
                  | Some userData \<Rightarrow>
                      concat (map (\<lambda>rm. socket_to st1 sock rm
                                          (user_left (sock_odlserId sock) (sock_username sock) rm))
                                (rooms userData)));
          st2 = unregister st1 sock
      in (st2, left @ io_emit st2
                 (user_status_change (sock_odlserId sock) (sock_username sock) (str ''offline''))))"

subsection \<open>Friend requests\<close>
































subsection \<open>Encryption layer\<close>

text \<open>
  encryption.ts calls the browser for every cryptographic and encoding step. Those calls
  are the fields of a \<open>platform\<close>: the RSA-OAEP and AES-GCM operations of
  \<^verbatim>\<open>crypto.subtle\<close> and its key import and export, \<^verbatim>\<open>TextEncoder\<close> and
  \<^verbatim>\<open>TextDecoder\<close>, \<^verbatim>\<open>btoa\<close> and \<^verbatim>\<open>atob\<close>. A call that can throw (or reject its
  promise) returns an error on the left. The code of the repository around the calls is
  modelled in full. Key types are type parameters: public, private and AES keys.
\<close>

type_synonym bytes = "8 word list"

datatype js_error = OperationError | DataError | RangeError | InvalidCharacterError | TypeError

record ('pk, 'sk, 'ak) platform =
  rsa_oaep_encrypt :: "'pk \<Rightarrow> bytes \<Rightarrow> js_error + bytes"
  rsa_oaep_decrypt :: "'sk \<Rightarrow> bytes \<Rightarrow> js_error + bytes"
  aes_gcm_encrypt :: "'ak \<Rightarrow> bytes \<Rightarrow> bytes \<Rightarrow> js_error + bytes"
  aes_gcm_decrypt :: "'ak \<Rightarrow> bytes \<Rightarrow> bytes \<Rightarrow> js_error + bytes"
  export_raw :: "'ak \<Rightarrow> js_error + bytes"
  import_raw :: "bytes \<Rightarrow> js_error + 'ak"
  import_spki :: "bytes \<Rightarrow> js_error + 'pk"
  text_encode :: "jsstring \<Rightarrow> bytes"
  text_decode :: "bytes \<Rightarrow> jsstring"
  btoa :: "jsstring \<Rightarrow> js_error + jsstring"
  atob :: "jsstring \<Rightarrow> js_error + jsstring"

text \<open>Sequencing of awaited calls: the first error ends the sequence.\<close>

fun and_then :: "js_error + 'a \<Rightarrow> ('a \<Rightarrow> js_error + 'b) \<Rightarrow> js_error + 'b" where
  "and_then (Inl e) f = Inl e"
| "and_then (Inr x) f = f x"

text \<open>
  \<^verbatim>\<open>new Uint8Array(new Uint32Array([n]).buffer)\<close>: the four bytes of \<open>n\<close> modulo \<open>2^32\<close>,
  least significant first (the byte order of the platforms browsers run on).
\<close>

definition uint32_bytes :: "nat \<Rightarrow> bytes" where
  "uint32_bytes n =
     [of_nat (n mod 256), of_nat (n div 256 mod 256),
      of_nat (n div 65536 mod 256), of_nat (n div 16777216 mod 256)]"

text \<open>
  \<^verbatim>\<open>new Uint32Array(keyLengthBytes.buffer)[0]\<close>, where \<^verbatim>\<open>keyLengthBytes\<close> is the slice
  \<^verbatim>\<open>combined.slice(12, 16)\<close>: four bytes give their number; no byte at all gives an empty
  array, whose element 0 is \<^verbatim>\<open>undefined\<close>; one to three bytes throw a \<^verbatim>\<open>RangeError\<close>.
\<close>

fun key_length :: "bytes \<Rightarrow> js_error + nat option" where
  "key_length [] = Inr None"
| "key_length [b0, b1, b2, b3] =
     Inr (Some (unat b0 + 256 * unat b1 + 65536 * unat b2 + 16777216 * unat b3))"
| "key_length bs = Inl RangeError"

text \<open>\<^verbatim>\<open>arrayBufferToBase64\<close> and \<^verbatim>\<open>base64ToArrayBuffer\<close>\<close>

definition arrayBufferToBase64 :: "('pk, 'sk, 'ak) platform \<Rightarrow> bytes \<Rightarrow> js_error + jsstring" where
  "arrayBufferToBase64 P buffer = btoa P (map ucast buffer)"

definition base64ToArrayBuffer :: "('pk, 'sk, 'ak) platform \<Rightarrow> jsstring \<Rightarrow> js_error + bytes" where
  "base64ToArrayBuffer P base64 = and_then (atob P base64) (\<lambda>binary. Inr (map ucast binary))"

text \<open>
  \<^verbatim>\<open>encryptMessage\<close>. \<open>aesKey\<close> is the key that \<^verbatim>\<open>generateKey\<close> returns and \<open>iv\<close> the
  twelve bytes that \<^verbatim>\<open>getRandomValues\<close> fills in. The function has no \<^verbatim>\<open>try\<close>: an error of
  a call is the function's error.
\<close>

definition encryptMessage ::
  "('pk, 'sk, 'ak) platform \<Rightarrow> jsstring \<Rightarrow> 'pk \<Rightarrow> 'ak \<Rightarrow> bytes \<Rightarrow> js_error + jsstring" where
  "encryptMessage P message publicKey aesKey iv =
     and_then (aes_gcm_encrypt P aesKey iv (text_encode P message)) (\<lambda>encryptedMessage.
     and_then (export_raw P aesKey) (\<lambda>exportedAesKey.
     and_then (rsa_oaep_encrypt P publicKey exportedAesKey) (\<lambda>encryptedAesKey.
       arrayBufferToBase64 P
         (iv @ uint32_bytes (length encryptedAesKey) @ encryptedAesKey @ encryptedMessage))))"

text \<open>
  The body of the \<^verbatim>\<open>try\<close> block of \<^verbatim>\<open>decryptMessage\<close>. With an undefined key length,
  \<^verbatim>\<open>combined.slice(16, NaN)\<close> is empty and \<^verbatim>\<open>combined.slice(NaN)\<close> is all of \<^verbatim>\<open>combined\<close>.
\<close>

definition decrypt_steps ::
  "('pk, 'sk, 'ak) platform \<Rightarrow> jsstring \<Rightarrow> 'sk \<Rightarrow> js_error + jsstring" where
  "decrypt_steps P encryptedData privateKey =
     and_then (base64ToArrayBuffer P encryptedData) (\<lambda>combined.
     and_then (key_length (take 4 (drop 12 combined))) (\<lambda>keyLength.
     and_then (rsa_oaep_decrypt P privateKey
                 (case keyLength of None \<Rightarrow> [] | Some n \<Rightarrow> take n (drop 16 combined))) (\<lambda>aesKeyData.
     and_then (import_raw P aesKeyData) (\<lambda>aesKey.
     and_then (aes_gcm_decrypt P aesKey (take 12 combined)
                 (case keyLength of None \<Rightarrow> combined | Some n \<Rightarrow> drop (16 + n) combined))
       (\<lambda>decryptedData. Inr (text_decode P decryptedData))))))"

text \<open>
  \<^verbatim>\<open>decryptMessage\<close>: the \<^verbatim>\<open>catch\<close> turns every error of the body into the returned string
  \<^verbatim>\<open>'[Unable to decrypt message]'\<close>. The result is on the right when the promise is
  fulfilled and on the left when it is rejected.
\<close>

definition decryptMessage ::
  "('pk, 'sk, 'ak) platform \<Rightarrow> jsstring \<Rightarrow> 'sk \<Rightarrow> js_error + jsstring" where
  "decryptMessage P encryptedData privateKey =
     (case decrypt_steps P encryptedData privateKey of
        Inl e \<Rightarrow> Inr (str ''[Unable to decrypt message]'')
      | Inr message \<Rightarrow> Inr message)"

text \<open>The marker that useEncryption.ts puts before ciphertext: U+1F512, two code units.\<close>

definition lock :: jsstring where
  "lock = [0xD83D, 0xDD12]"

text \<open>\<^verbatim>\<open>importPublicKey\<close>\<close>

definition importPublicKey :: "('pk, 'sk, 'ak) platform \<Rightarrow> jsstring \<Rightarrow> js_error + 'pk" where
  "importPublicKey P publicKeyBase64 =
     and_then (base64ToArrayBuffer P publicKeyBase64) (import_spki P)"

text \<open>
  What \<^verbatim>\<open>fetch(`${API_URL}/api/auth/public-key/${recipientId}`)\<close> gives the hook: a
  rejection (or a body that cannot be read), a response that is not \<^verbatim>\<open>ok\<close> (the server
  answers 404 when the user or the key does not exist), or the key in base64.
\<close>

datatype key_response = fetch_rejected | not_ok | ok_json jsstring

text \<open>
  \<^verbatim>\<open>getRecipientPublicKey\<close>, with the module's \<^verbatim>\<open>publicKeyCache\<close> passed in and returned.
\<close>

definition getRecipientPublicKey ::
  "('pk, 'sk, 'ak) platform \<Rightarrow> (jsstring \<times> 'pk) list \<Rightarrow> key_response \<Rightarrow> jsstring \<Rightarrow>
   'pk option \<times> (jsstring \<times> 'pk) list" where
  "getRecipientPublicKey P publicKeyCache fetched rid =
     (case map_of publicKeyCache rid of
        Some cached \<Rightarrow> (Some cached, publicKeyCache)
      | None \<Rightarrow>
          (case fetched of
             fetch_rejected \<Rightarrow> (None, publicKeyCache)
           | not_ok \<Rightarrow> (None, publicKeyCache)
           | ok_json publicKeyBase64 \<Rightarrow>
               (case importPublicKey P publicKeyBase64 of
                  Inl e \<Rightarrow> (None, publicKeyCache)
                | Inr publicKey \<Rightarrow> (Some publicKey, AList.update rid publicKey publicKeyCache))))"

text \<open>The hook's \<^verbatim>\<open>encrypt\<close>: the string it resolves to, and the cache afterwards.\<close>

definition encrypt ::
  "('pk, 'sk, 'ak) platform \<Rightarrow> bool \<Rightarrow> (jsstring \<times> 'pk) list \<Rightarrow> key_response \<Rightarrow> 'ak \<Rightarrow> bytes \<Rightarrow>
   jsstring \<Rightarrow> jsstring \<Rightarrow> jsstring \<times> (jsstring \<times> 'pk) list" where
  "encrypt P isReady publicKeyCache fetched aesKey iv message rid =
     (if isReady
      then (case getRecipientPublicKey P publicKeyCache fetched rid of
              (None, cache1) \<Rightarrow> (message, cache1)
            | (Some recipientPublicKey, cache1) \<Rightarrow>
                (case encryptMessage P message recipientPublicKey aesKey iv of
                   Inr encrypted \<Rightarrow> (lock @ encrypted, cache1)
                 | Inl e \<Rightarrow> (message, cache1)))
      else (message, publicKeyCache))"

text \<open>The hook's \<^verbatim>\<open>decrypt\<close>, with \<^verbatim>\<open>privateKeyRef.current\<close> passed in.\<close>

definition decrypt :: "('pk, 'sk, 'ak) platform \<Rightarrow> 'sk option \<Rightarrow> jsstring \<Rightarrow> jsstring" where
  "decrypt P privateKeyRef encryptedMessage =
     (if take 2 encryptedMessage = lock
      then (case privateKeyRef of
              None \<Rightarrow> str ''[Encrypted message - key not available]''
            | Some privateKey \<Rightarrow>
                (case decryptMessage P (drop 2 encryptedMessage) privateKey of
                   Inr message \<Rightarrow> message
                 | Inl e \<Rightarrow> str ''[Unable to decrypt message]''))
      else encryptedMessage)"

subsection \<open>Example values\<close>





definition example_message :: "nat \<Rightarrow> StoredMessage" where
  "example_message n =
     \<lparr>msg_id = str ''msg_'' @ replicate n 0x31,
      content = str ''hi'',
      sender = str ''alice'',
      senderUsername = str ''Alice'',
      room = str ''dm_alice_bob'',
      msg_type = str ''text'',
      time = str ''2024-01-01T00:00:00.000Z''\<rparr>"

definition alice_tab1 :: AuthenticatedSocket where
  "alice_tab1 = \<lparr>sock_id = str ''s1'', sock_odlserId = Some (str ''alice''),
                 sock_username = Some (str ''Alice''), sock_firebaseUid = Some (str ''fa'')\<rparr>"

definition alice_tab2 :: AuthenticatedSocket where
  "alice_tab2 = \<lparr>sock_id = str ''s2'', sock_odlserId = Some (str ''alice''),
                 sock_username = Some (str ''Alice''), sock_firebaseUid = Some (str ''fa'')\<rparr>"

definition bob_tab :: AuthenticatedSocket where
  "bob_tab = \<lparr>sock_id = str ''s3'', sock_odlserId = Some (str ''bob''),
              sock_username = Some (str ''Bob''), sock_firebaseUid = Some (str ''fb'')\<rparr>"

text \<open>Alice connected once; Alice connected from two tabs; Alice and Bob both in a room.\<close>

definition one_tab :: relay where
  "one_tab = fst (on_connection relay_init alice_tab1)"

definition two_tabs :: relay where
  "two_tabs = fst (on_connection one_tab alice_tab2)"

definition general_room :: relay where
  "general_room =
     fst (on_join_room (fst (on_join_room (fst (on_connection one_tab bob_tab))
                               alice_tab1 (str ''general'')))
            bob_tab (str ''general''))"

definition self_dm :: PrivateMessageData where
  "self_dm = \<lparr>recipientId = str ''alice'', pm_content = str ''note'', pm_type = None\<rparr>"

definition hi_general :: MessageData where
  "hi_general = \<lparr>md_room = str ''general'', md_content = str ''hi'', md_type = Some (str ''text'')\<rparr>"

text \<open>
  A stand-in platform for instances: keys are numbers, a wrapped key carries the number of
  the public key it was wrapped for, and unwrapping with another number is an
  \<^verbatim>\<open>OperationError\<close>.
\<close>

definition test_platform :: "(nat, nat, bytes) platform" where
  "test_platform =
     \<lparr>rsa_oaep_encrypt = (\<lambda>pk d. Inr (of_nat pk # d)),
      rsa_oaep_decrypt = (\<lambda>sk c. case c of
                                    [] \<Rightarrow> Inl OperationError
                                  | t # d \<Rightarrow> if t = of_nat sk then Inr d else Inl OperationError),
      aes_gcm_encrypt = (\<lambda>k iv d. Inr (rev d)),
      aes_gcm_decrypt = (\<lambda>k iv c. Inr (rev c)),
      export_raw = (\<lambda>k. Inr k),
      import_raw = (\<lambda>b. Inr b),
      import_spki = (\<lambda>b. Inr (length b)),
      text_encode = map ucast,
      text_decode = map ucast,
      btoa = (\<lambda>s. Inr s),
      atob = (\<lambda>s. Inr s)\<rparr>"

definition example_key :: bytes where
  "example_key = [1, 2, 3, 4]"

definition example_iv :: bytes where
  "example_iv = [0, 1, 2, 3, 4, 5, 6, 7, 8, 9, 10, 11]"

definition example_blob :: jsstring where
  "example_blob =
     map ucast (example_iv @ [5, 0, 0, 0] @ [1, 1, 2, 3, 4] @ rev (map ucast (str ''secret'')))"

section \<open>Lemmas and theorems\<close>

subsection \<open>Direct-message room identifier\<close>

lemma js_sort_pair: "js_sort [a, b] = [min a b, max a b]"
  by (simp add: js_sort_def min_def max_def)

text \<open>
  Claim C4. The direct-message room identifier does not depend on the order of the two user
  ids, and it is \<^verbatim>\<open>dm_\<close> followed by the smaller id, an underscore and the larger id.
\<close>

theorem dmRoom_commutative_sorted:
  "dmRoom a b = dmRoom b a \<and>
   dmRoom a b = str ''dm_'' @ join (str ''_'') (sort [a, b]) \<and>
   dmRoom a b = str ''dm_'' @ min a b @ str ''_'' @ max a b"
proof -
  have swap: "js_sort [a, b] = js_sort [b, a]"
    unfolding js_sort_pair by (simp add: min.commute max.commute)
  have c1: "dmRoom a b = dmRoom b a"
    by (simp only: dmRoom_def swap)
  have c2: "dmRoom a b = str ''dm_'' @ join (str ''_'') (sort [a, b])"
    by (simp only: dmRoom_def js_sort_def)
  have c3: "dmRoom a b = str ''dm_'' @ min a b @ str ''_'' @ max a b"
    by (simp add: dmRoom_def js_sort_pair)
  from c1 c2 c3 show ?thesis by blast
qed

subsection \<open>In-memory message store\<close>

lemma read_add:
  "getMessagesFromStore (addMessageToStore store r' m) rm =
     (if r' = rm
      then (let ms = getMessagesFromStore store rm @ [m]
            in if length ms > 100 then tl ms else ms)
      else getMessagesFromStore store rm)"
  by (simp add: getMessagesFromStore_def addMessageToStore_def Let_def)

lemma read_add_bounded:
  "length (getMessagesFromStore store rm) \<le> 100 \<Longrightarrow>
   length (getMessagesFromStore (addMessageToStore store r' m) rm) \<le> 100"
  by (cases "getMessagesFromStore store rm") (auto simp: read_add Let_def)

lemma read_appends_bounded:
  "length (getMessagesFromStore store rm) \<le> 100 \<Longrightarrow>
   length (getMessagesFromStore (appends store ps) rm) \<le> 100"
  by (induction ps arbitrary: store) (simp_all add: read_add_bounded)

lemma read_init: "getMessagesFromStore messageStore_init rm = []"
  by (simp add: getMessagesFromStore_def messageStore_init_def)

lemma lastn_absorb:
  "drop (length (drop (length xs - n) xs @ ys) - n) (drop (length xs - n) xs @ ys) =
   drop (length (xs @ ys) - n) (xs @ ys)"
proof (cases "length xs \<le> n")
  case True
  then show ?thesis by simp
next
  case False
  then have "length xs + length ys - n = (length xs - n) + length ys" by simp
  moreover have "drop ((length xs - n) + length ys) (xs @ ys) =
      drop (length ys) (drop (length xs - n) (xs @ ys))"
    by (simp add: add.commute)
  ultimately show ?thesis using False by simp
qed

lemma read_add_same:
  assumes "length (getMessagesFromStore store rm) \<le> 100"
  shows "getMessagesFromStore (addMessageToStore store rm m) rm =
     drop (length (getMessagesFromStore store rm @ [m]) - 100) (getMessagesFromStore store rm @ [m])"
proof (cases "length (getMessagesFromStore store rm) = 100")
  case True
  then obtain x xs where old: "getMessagesFromStore store rm = x # xs" and len: "length xs = 99"
    by (cases "getMessagesFromStore store rm") auto
  show ?thesis by (simp add: read_add Let_def old len)
next
  case False
  with assms have "length (getMessagesFromStore store rm) < 100" by simp
  then show ?thesis by (simp add: read_add Let_def)
qed

lemma read_appends:
  "length (getMessagesFromStore store rm) \<le> 100 \<Longrightarrow>
   getMessagesFromStore (appends store ps) rm =
     drop (length (getMessagesFromStore store rm @ for_room rm ps) - 100)
       (getMessagesFromStore store rm @ for_room rm ps)"
proof (induction ps arbitrary: store)
  case Nil
  then show ?case by (simp add: for_room_def)
next
  case (Cons p ps)
  let ?old = "getMessagesFromStore store rm"
  let ?st = "addMessageToStore store (fst p) (snd p)"
  have bounded: "length (getMessagesFromStore ?st rm) \<le> 100"
    using Cons.prems by (rule read_add_bounded)
  have ih: "getMessagesFromStore (appends ?st ps) rm =
     drop (length (getMessagesFromStore ?st rm @ for_room rm ps) - 100)
       (getMessagesFromStore ?st rm @ for_room rm ps)"
    by (rule Cons.IH [OF bounded])
  show ?case
  proof (cases "fst p = rm")
    case False
    then have "getMessagesFromStore ?st rm = ?old" by (simp add: read_add)
    moreover have "for_room rm (p # ps) = for_room rm ps"
      using False by (simp add: for_room_def)
    ultimately show ?thesis using ih by simp
  next
    case True
    have step: "getMessagesFromStore ?st rm =
        drop (length (?old @ [snd p]) - 100) (?old @ [snd p])"
      using True read_add_same [OF Cons.prems, of "snd p"] by simp
    have rest: "for_room rm (p # ps) = snd p # for_room rm ps"
      using True by (simp add: for_room_def)
    have "getMessagesFromStore (appends ?st ps) rm =
        drop (length ((?old @ [snd p]) @ for_room rm ps) - 100) ((?old @ [snd p]) @ for_room rm ps)"
      unfolding ih step by (rule lastn_absorb)
    then show ?thesis by (simp add: rest)
  qed
qed

text \<open>
  Claim C3. In a store built by any earlier appends, once more than 100 further messages have
  been appended to a room (appends to other rooms may be interleaved), reading the room
  returns exactly the last 100 of them, oldest first.
\<close>

theorem buffer_keeps_last_100:
  "100 < length (for_room rm ps) \<Longrightarrow>
   getMessagesFromStore (appends (appends messageStore_init pre) ps) rm =
     drop (length (for_room rm ps) - 100) (for_room rm ps) \<and>
   length (getMessagesFromStore (appends (appends messageStore_init pre) ps) rm) = 100"
proof -
  assume more: "100 < length (for_room rm ps)"
  let ?st = "appends messageStore_init pre"
  have "length (getMessagesFromStore ?st rm) \<le> 100"
    by (rule read_appends_bounded) (simp add: read_init)
  then show ?thesis
    using more by (simp add: read_appends read_init)
qed

lemma for_room_same: "for_room rm (map (\<lambda>n. (rm, f n)) ns) = map f ns"
  by (induction ns) (simp_all add: for_room_def)

text \<open>An instance: 101 messages appended to one room of the empty store.\<close>

theorem buffer_keeps_last_100_witness:
  "getMessagesFromStore
     (appends (appends messageStore_init [])
        (map (\<lambda>n. (str ''dm_alice_bob'', example_message n)) [0..<101]))
     (str ''dm_alice_bob'') = map example_message [1..<101]"
  using buffer_keeps_last_100 [of "str ''dm_alice_bob''"
      "map (\<lambda>n. (str ''dm_alice_bob'', example_message n)) [0..<101]" "[]"]
  by (simp add: for_room_same drop_map)

subsection \<open>Relay handlers and the durable store\<close>

text \<open>
  Claim C1. When the Firestore write of \<^verbatim>\<open>send_message\<close> is rejected, the handler's only
  effect is one \<^verbatim>\<open>error\<close> event to the sending socket: no \<^verbatim>\<open>receive_message\<close> goes to
  anyone. In the room \<^verbatim>\<open>general\<close> with Alice and Bob joined, the failed send reaches only
  Alice's socket with the error, where the successful send reaches both sockets.
\<close>

theorem send_message_store_failure:
  "on_send_message st sock d createdAt now (Inl e) =
     (st, [(sock_id sock, error_event (str ''Failed to send message''))]) \<and>
   snd (on_send_message general_room alice_tab1 hi_general createdAt now (Inl e)) =
     [(str ''s1'', error_event (str ''Failed to send message''))] \<and>
   map fst (snd (on_send_message general_room alice_tab1 hi_general createdAt now (Inr docRef_id))) =
     [str ''s1'', str ''s3'']"
proof -
  have members: "room_sockets general_room (str ''general'') = [str ''s1'', str ''s3'']"
    by (simp add: general_room_def on_join_room_def on_connection_def one_tab_def relay_init_def
        register_def joinRoom_def socket_join_def room_sockets_def alice_tab1_def bob_tab_def
        str_def set_add_def Let_def)
  have failure: "on_send_message st sock d createdAt now (Inl e) =
      (st, [(sock_id sock, error_event (str ''Failed to send message''))])"
    by (simp add: on_send_message_def socket_emit_def)
  have concrete: "snd (on_send_message general_room alice_tab1 hi_general createdAt now (Inl e)) =
      [(str ''s1'', error_event (str ''Failed to send message''))]"
    by (simp add: on_send_message_def socket_emit_def alice_tab1_def)
  have success: "map fst (snd (on_send_message general_room alice_tab1 hi_general createdAt now
      (Inr docRef_id))) = [str ''s1'', str ''s3'']"
    by (simp add: on_send_message_def io_to_def members hi_general_def)
  from failure concrete success show ?thesis by blast
qed

text \<open>
  Claim C2. When the status update of the authentication middleware is rejected, the
  handshake is never accepted, whatever the credentials and the user lookup were: for a
  valid token and a user that the lookup finds, \<^verbatim>\<open>next\<close> gets the error
  \<^verbatim>\<open>Authentication failed\<close>, where the same handshake with a successful update is
  accepted.
\<close>

theorem handshake_presence_failure:
  "authenticate sid auth docs (Inl e) \<noteq> next_ok sock \<and>
   authenticate (str ''s1'')
     \<lparr>auth_token = Some (str ''tok''), auth_firebaseUid = Some (str ''fa''), auth_username = None\<rparr>
     (Inr [(str ''alice'', Some (str ''Alice''))]) (Inl e) =
     next_error (str ''Authentication failed'') \<and>
   authenticate (str ''s1'')
     \<lparr>auth_token = Some (str ''tok''), auth_firebaseUid = Some (str ''fa''), auth_username = None\<rparr>
     (Inr [(str ''alice'', Some (str ''Alice''))]) (Inr ()) = next_ok alice_tab1"
proof -
  have general: "authenticate sid auth docs (Inl e) \<noteq> next_ok sock"
    by (simp add: authenticate_def split: sum.splits list.splits)
  have failure: "authenticate (str ''s1'')
     \<lparr>auth_token = Some (str ''tok''), auth_firebaseUid = Some (str ''fa''), auth_username = None\<rparr>
     (Inr [(str ''alice'', Some (str ''Alice''))]) (Inl e) =
     next_error (str ''Authentication failed'')"
    by (simp add: authenticate_def str_def)
  have success: "authenticate (str ''s1'')
     \<lparr>auth_token = Some (str ''tok''), auth_firebaseUid = Some (str ''fa''), auth_username = None\<rparr>
     (Inr [(str ''alice'', Some (str ''Alice''))]) (Inr ()) = next_ok alice_tab1"
    by (simp add: authenticate_def alice_tab1_def js_or_def) (simp add: str_def)
  from general failure success show ?thesis by blast
qed

subsection \<open>Session registry\<close>

lemma set_update_subset: "set (AList.update k v al) \<subseteq> insert (k, v) (set al)"
  by (induction al) auto

lemma list_all_update:
  "P (k, v) \<Longrightarrow> list_all P al \<Longrightarrow> list_all P (AList.update k v al)"
  using set_update_subset [of k v al] by (auto simp: list_all_iff)

lemma list_all_delete:
  "list_all P al \<Longrightarrow> list_all P (AList.delete k al)"
  by (auto simp: list_all_iff AList.delete_eq)

lemma consistent_register:
  assumes "consistent st" and "op_exclusive st (Register sock)"
  shows "consistent (register st sock)"
proof (cases "sock_odlserId sock")
  case None
  with assms show ?thesis by (simp add: register_def)
next
  case (Some uid)
  show ?thesis
  proof (cases "sock_username sock")
    case None
    with Some assms show ?thesis by (simp add: register_def)
  next
    case (Some name)
    show ?thesis
    proof (cases "uid = [] \<or> name = []")
      case True
      with Some \<open>sock_odlserId sock = Some uid\<close> assms show ?thesis
        by (auto simp: register_def)
    next
      case False
      have other: "list_all (\<lambda>p. odlserId (snd p) \<noteq> uid) (onlineUsers st)"
        using assms(2) \<open>sock_odlserId sock = Some uid\<close> by (auto simp: list_all_iff)
      have old: "list_all (\<lambda>p. map_of (AList.update uid (sock_id sock) (userSockets st))
                    (odlserId (snd p)) = Some (fst p)) (onlineUsers st)"
        using assms(1) other
        by (auto simp: consistent_def resolveConnection_def list_all_iff update_conv')
      let ?ud = "\<lparr>odlserId = uid, username = name, rooms = [],
                  firebaseUid = sock_firebaseUid sock\<rparr>"
      have new: "list_all (\<lambda>p. map_of (AList.update uid (sock_id sock) (userSockets st))
                    (odlserId (snd p)) = Some (fst p))
                  (AList.update (sock_id sock) ?ud (onlineUsers st))"
        using old by (intro list_all_update) (simp_all add: update_conv')
      have dist: "distinct (map fst (AList.update (sock_id sock) ?ud (onlineUsers st)))"
        using assms(1) by (simp add: consistent_def distinct_update)
      have "register st sock =
          st\<lparr>onlineUsers := AList.update (sock_id sock) ?ud (onlineUsers st),
             userSockets := AList.update uid (sock_id sock) (userSockets st)\<rparr>"
        using False Some \<open>sock_odlserId sock = Some uid\<close> by (simp add: register_def)
      with new dist show ?thesis
        by (simp add: consistent_def resolveConnection_def)
    qed
  qed
qed

lemma consistent_rooms_update:
  assumes "consistent st" and "map_of (onlineUsers st) sid = Some userData"
  shows "consistent (st\<lparr>onlineUsers := AList.update sid (userData\<lparr>rooms := rs\<rparr>) (onlineUsers st)\<rparr>)"
proof -
  have "(sid, userData) \<in> set (onlineUsers st)"
    using assms(2) by (rule map_of_SomeD)
  then have "map_of (userSockets st) (odlserId userData) = Some sid"
    using assms(1) by (auto simp: consistent_def resolveConnection_def list_all_iff)
  then show ?thesis
    using assms(1)
    by (auto simp: consistent_def resolveConnection_def distinct_update intro!: list_all_update)
qed

lemma consistent_joinRoom: "consistent st \<Longrightarrow> consistent (joinRoom st sid rm)"
  by (auto simp: joinRoom_def consistent_rooms_update split: option.splits)

lemma consistent_leaveRoom: "consistent st \<Longrightarrow> consistent (leaveRoom st sid rm)"
  by (auto simp: leaveRoom_def consistent_rooms_update split: option.splits)

lemma consistent_unregister:
  assumes "consistent st" and "op_exclusive st (Unregister sock)"
  shows "consistent (unregister st sock)"
proof -
  have dist: "distinct (map fst (AList.delete (sock_id sock) (onlineUsers st)))"
    using assms(1) by (simp add: consistent_def distinct_delete)
  have kept: "list_all (\<lambda>p. map_of (userSockets st) (odlserId (snd p)) = Some (fst p))
      (AList.delete (sock_id sock) (onlineUsers st))"
    using assms(1) by (auto simp: consistent_def resolveConnection_def intro: list_all_delete)
  have others: "list_all (\<lambda>p. Some (odlserId (snd p)) \<noteq> sock_odlserId sock)
      (AList.delete (sock_id sock) (onlineUsers st))"
    using assms(2) by (auto simp: list_all_iff AList.delete_eq)
  show ?thesis
  proof (cases "sock_odlserId sock")
    case None
    with dist kept show ?thesis
      by (simp add: unregister_def consistent_def resolveConnection_def)
  next
    case (Some uid)
    have "list_all (\<lambda>p. map_of (AList.delete uid (userSockets st)) (odlserId (snd p)) = Some (fst p))
      (AList.delete (sock_id sock) (onlineUsers st))"
      using kept others Some by (auto simp: list_all_iff delete_conv')
    with dist kept Some show ?thesis
      by (simp add: unregister_def consistent_def resolveConnection_def Let_def)
  qed
qed

lemma consistent_apply_op:
  "consistent st \<Longrightarrow> op_exclusive st x \<Longrightarrow> consistent (apply_op st x)"
  by (cases x)
    (simp_all add: consistent_register consistent_joinRoom consistent_leaveRoom consistent_unregister)

lemma consistent_run_ops:
  "consistent st \<Longrightarrow> exclusive st ops \<Longrightarrow> consistent (run_ops st ops)"
  unfolding run_ops_def
  by (induction ops arbitrary: st) (simp_all add: consistent_apply_op)

lemma consistent_init: "consistent relay_init"
  by (simp add: consistent_def relay_init_def)

text \<open>
  Claim C6, as amended. Starting from the empty registry, after any sequence of register,
  joinRoom, leaveRoom and unregister operations that never puts one identity on two
  connections (each register is for an identity that no listed connection holds, each
  unregister is for a socket whose identity no other listed connection holds), the two maps
  are consistent: every connection is listed once, and resolving its identity in
  \<^verbatim>\<open>userSockets\<close> gives that connection.
\<close>

theorem registry_consistent_single_session:
  "exclusive relay_init ops \<Longrightarrow> consistent (run_ops relay_init ops)"
  by (rule consistent_run_ops [OF consistent_init])

text \<open>
  Claim C6 as stated fails when an identity that has a live connection registers again: the
  second \<^verbatim>\<open>userSockets.set\<close> overwrites the first, and the older connection, still
  listed in \<^verbatim>\<open>onlineUsers\<close>, no longer resolves to itself.
\<close>

theorem registry_inconsistent_after_reregistration:
  "\<not> consistent (run_ops relay_init [Register alice_tab1, Register alice_tab2]) \<and>
   \<not> consistent (fst (on_connection (fst (on_connection relay_init alice_tab1)) alice_tab2))"
  by (simp add: run_ops_def on_connection_def socket_join_def register_def relay_init_def
      alice_tab1_def alice_tab2_def consistent_def resolveConnection_def str_def Let_def)

text \<open>An instance: Alice connects, joins and leaves a room, Bob connects, Alice reconnects.\<close>

theorem registry_consistent_single_session_witness:
  "exclusive relay_init
     [Register alice_tab1, JoinRoom (str ''s1'') (str ''general''), Register bob_tab,
      LeaveRoom (str ''s1'') (str ''general''), Unregister alice_tab1, Register alice_tab2] \<and>
   consistent (run_ops relay_init
     [Register alice_tab1, JoinRoom (str ''s1'') (str ''general''), Register bob_tab,
      LeaveRoom (str ''s1'') (str ''general''), Unregister alice_tab1, Register alice_tab2])"
proof -
  have ex: "exclusive relay_init
     [Register alice_tab1, JoinRoom (str ''s1'') (str ''general''), Register bob_tab,
      LeaveRoom (str ''s1'') (str ''general''), Unregister alice_tab1, Register alice_tab2]"
    by (simp add: register_def joinRoom_def leaveRoom_def unregister_def relay_init_def
        alice_tab1_def alice_tab2_def bob_tab_def set_add_def set_delete_def str_def)
  from ex registry_consistent_single_session [OF ex] show ?thesis by (rule conjI)
qed

subsection \<open>Joining a room\<close>

lemma set_add_idem: "set_add x (set_add x xs) = set_add x xs"
  by (simp add: set_add_def)

lemma socket_join_idem: "socket_join (socket_join st sid rm) sid rm = socket_join st sid rm"
  by (simp add: socket_join_def room_sockets_def update_conv' set_add_idem)

lemma joinRoom_idem: "joinRoom (joinRoom st sid rm) sid rm = joinRoom st sid rm"
  by (cases "map_of (onlineUsers st) sid") (simp_all add: joinRoom_def update_conv' set_add_idem)

lemma socket_join_joinRoom_commute:
  "socket_join (joinRoom st sid rm) sid' rm' = joinRoom (socket_join st sid' rm') sid rm"
  by (cases "map_of (onlineUsers st) sid")
    (simp_all add: joinRoom_def socket_join_def room_sockets_def)

lemma fst_on_join_room:
  "fst (on_join_room st sock rm) = joinRoom (socket_join st (sock_id sock) rm) (sock_id sock) rm"
  by (simp add: on_join_room_def Let_def)

lemma on_join_room_idem:
  "fst (on_join_room (fst (on_join_room st sock rm)) sock rm) = fst (on_join_room st sock rm)"
  by (simp add: fst_on_join_room socket_join_joinRoom_commute socket_join_idem joinRoom_idem)

lemma room_users_sent:
  "(sock_id sock, room_users rm (roomUsers (fst (on_join_room st sock rm)) rm))
     \<in> set (snd (on_join_room st sock rm))"
  by (simp add: on_join_room_def Let_def socket_emit_def)

lemma distinct_joinRoom:
  "distinct (map fst (onlineUsers st)) \<Longrightarrow> distinct (map fst (onlineUsers (joinRoom st sid rm)))"
  by (cases "map_of (onlineUsers st) sid") (simp_all add: joinRoom_def distinct_update)

lemma onlineUsers_socket_join: "onlineUsers (socket_join st sid rm) = onlineUsers st"
  by (simp add: socket_join_def)

lemma distinct_roomMembers:
  "distinct (map fst (onlineUsers st)) \<Longrightarrow> distinct (roomMembers st rm)"
  by (simp add: roomMembers_def distinct_map_filter)

lemma count_list_distinct: "distinct xs \<Longrightarrow> count_list xs x \<le> 1"
  by (induction xs) (auto simp: count_list_0_iff)

lemma member_after_joinRoom:
  "map_of (onlineUsers st) sid = Some u \<Longrightarrow> sid \<in> set (roomMembers (joinRoom st sid rm) rm)"
proof -
  assume u: "map_of (onlineUsers st) sid = Some u"
  let ?u = "u\<lparr>rooms := set_add rm (rooms u)\<rparr>"
  have "map_of (AList.update sid ?u (onlineUsers st)) sid = Some ?u"
    by (simp add: update_conv')
  then have "(sid, ?u) \<in> set (AList.update sid ?u (onlineUsers st))"
    by (rule map_of_SomeD)
  moreover have "rm \<in> set (rooms ?u)" by (simp add: set_add_def)
  ultimately show ?thesis
    using u by (force simp: roomMembers_def joinRoom_def)
qed

text \<open>
  Claim C7. Handling \<^verbatim>\<open>join_room\<close> a second time for the same socket and room leaves the
  whole state as the first call left it; the room's member list holds no connection twice
  and holds the joining connection exactly once when it is registered (not at all when it
  is not); and each of the two calls sends the \<^verbatim>\<open>room_users\<close> list to the joining socket.
\<close>

theorem join_room_idempotent:
  assumes "distinct (map fst (onlineUsers st))"
  shows "fst (on_join_room (fst (on_join_room st sock rm)) sock rm) = fst (on_join_room st sock rm) \<and>
         distinct (roomMembers (fst (on_join_room (fst (on_join_room st sock rm)) sock rm)) rm) \<and>
         count_list (roomMembers (fst (on_join_room (fst (on_join_room st sock rm)) sock rm)) rm)
           (sock_id sock) = (if map_of (onlineUsers st) (sock_id sock) = None then 0 else 1) \<and>
         (sock_id sock, room_users rm (roomUsers (fst (on_join_room st sock rm)) rm))
           \<in> set (snd (on_join_room st sock rm)) \<and>
         (sock_id sock, room_users rm (roomUsers (fst (on_join_room st sock rm)) rm))
           \<in> set (snd (on_join_room (fst (on_join_room st sock rm)) sock rm))"
proof -
  let ?st1 = "fst (on_join_room st sock rm)"
  let ?st2 = "fst (on_join_room ?st1 sock rm)"
  have same: "?st2 = ?st1" by (rule on_join_room_idem)
  have dist: "distinct (map fst (onlineUsers ?st1))"
    using assms by (simp add: fst_on_join_room distinct_joinRoom onlineUsers_socket_join)
  then have dm: "distinct (roomMembers ?st1 rm)" by (rule distinct_roomMembers)
  have cnt: "count_list (roomMembers ?st1 rm) (sock_id sock) =
      (if map_of (onlineUsers st) (sock_id sock) = None then 0 else 1)"
  proof (cases "map_of (onlineUsers st) (sock_id sock)")
    case None
    then have "sock_id sock \<notin> fst ` set (onlineUsers st)"
      by (simp add: map_of_eq_None_iff)
    then have "sock_id sock \<notin> set (roomMembers ?st1 rm)"
      using None by (auto simp: fst_on_join_room joinRoom_def onlineUsers_socket_join roomMembers_def)
    with None show ?thesis by (simp add: count_list_0_iff)
  next
    case (Some u)
    then have "map_of (onlineUsers (socket_join st (sock_id sock) rm)) (sock_id sock) = Some u"
      by (simp add: onlineUsers_socket_join)
    then have "sock_id sock \<in> set (roomMembers ?st1 rm)"
      unfolding fst_on_join_room by (rule member_after_joinRoom)
    then have "count_list (roomMembers ?st1 rm) (sock_id sock) \<noteq> 0"
      by (simp add: count_list_0_iff)
    moreover have "count_list (roomMembers ?st1 rm) (sock_id sock) \<le> 1"
      using dm by (rule count_list_distinct)
    ultimately show ?thesis using Some by simp
  qed
  have sent1: "(sock_id sock, room_users rm (roomUsers ?st1 rm)) \<in> set (snd (on_join_room st sock rm))"
    by (rule room_users_sent)
  have "(sock_id sock, room_users rm (roomUsers ?st2 rm)) \<in> set (snd (on_join_room ?st1 sock rm))"
    by (rule room_users_sent)
  then have sent2: "(sock_id sock, room_users rm (roomUsers ?st1 rm))
      \<in> set (snd (on_join_room ?st1 sock rm))"
    by (simp only: same)
  from same dm cnt sent1 sent2 show ?thesis by (simp only: simp_thms)
qed

lemma one_tab_eq:
  "one_tab = \<lparr>sids = [(str ''s1'', [str ''s1''])],
     adapter_rooms = [(str ''s1'', [str ''s1''])],
     onlineUsers = [(str ''s1'', \<lparr>odlserId = str ''alice'', username = str ''Alice'', rooms = [],
                      firebaseUid = Some (str ''fa'')\<rparr>)],
     userSockets = [(str ''alice'', str ''s1'')],
     messageStore = messageStore_init\<rparr>"
  by (simp add: one_tab_def on_connection_def socket_join_def room_sockets_def register_def
      relay_init_def alice_tab1_def set_add_def Let_def)
    (simp add: str_def)

text \<open>An instance: Alice, connected once, joins \<^verbatim>\<open>general\<close> twice.\<close>

theorem join_room_idempotent_witness:
  "distinct (map fst (onlineUsers one_tab)) \<and>
   roomMembers (fst (on_join_room (fst (on_join_room one_tab alice_tab1 (str ''general'')))
                       alice_tab1 (str ''general''))) (str ''general'') = [str ''s1''] \<and>
   (str ''s1'', room_users (str ''general'') [(str ''alice'', str ''Alice'')])
     \<in> set (snd (on_join_room (fst (on_join_room one_tab alice_tab1 (str ''general'')))
                   alice_tab1 (str ''general'')))"
proof -
  have d: "distinct (map fst (onlineUsers one_tab))" by (simp add: one_tab_eq)
  have st1: "fst (on_join_room one_tab alice_tab1 (str ''general'')) =
     \<lparr>sids = [(str ''s1'', [str ''s1'', str ''general''])],
      adapter_rooms = [(str ''s1'', [str ''s1'']), (str ''general'', [str ''s1''])],
      onlineUsers = [(str ''s1'', \<lparr>odlserId = str ''alice'', username = str ''Alice'',
                       rooms = [str ''general''], firebaseUid = Some (str ''fa'')\<rparr>)],
      userSockets = [(str ''alice'', str ''s1'')],
      messageStore = messageStore_init\<rparr>"
    by (simp add: one_tab_eq on_join_room_def socket_join_def room_sockets_def joinRoom_def
        set_add_def alice_tab1_def Let_def) (simp add: str_def)
  have ru: "roomUsers (fst (on_join_room one_tab alice_tab1 (str ''general''))) (str ''general'') =
      [(str ''alice'', str ''Alice'')]"
    by (simp add: st1 roomUsers_def)
  have s1: "sock_id alice_tab1 = str ''s1''" by (simp add: alice_tab1_def)
  note inst = join_room_idempotent [OF d, of alice_tab1 "str ''general''"]
  have members: "roomMembers (fst (on_join_room (fst (on_join_room one_tab alice_tab1 (str ''general'')))
                       alice_tab1 (str ''general''))) (str ''general'') = [str ''s1'']"
    using inst by (simp add: st1 roomMembers_def)
  have sent: "(str ''s1'', room_users (str ''general'') [(str ''alice'', str ''Alice'')])
     \<in> set (snd (on_join_room (fst (on_join_room one_tab alice_tab1 (str ''general'')))
                   alice_tab1 (str ''general'')))"
    using inst by (simp only: ru s1)
  from d members sent show ?thesis by simp
qed

subsection \<open>Private messages\<close>

lemma filter_receiver:
  "filter (\<lambda>q. fst q = sid) (map (\<lambda>x. (x, ev)) xs) = replicate (count_list xs sid) (sid, ev)"
  by (induction xs) auto

lemma filter_io_to:
  "filter (\<lambda>q. fst q = sid) (io_to st rm ev) =
   replicate (count_list (room_sockets st rm) sid) (sid, ev)"
  unfolding io_to_def by (rule filter_receiver)

text \<open>
  Claim C10, as amended. When a socket sends a private message to its own user id, the
  identity map resolves that id to the sending socket, and the socket is connected and in
  the room named by its own id, then the socket receives \<^verbatim>\<open>receive_private_message\<close> twice
  with the same message: the echo, and the delivery to the recipient.
\<close>

theorem self_dm_delivered_twice:
  assumes "sock_odlserId sock = Some uid" and "uid \<noteq> []" and "recipientId d = uid"
    and "resolveConnection st uid = Some (sock_id sock)" and "sock_id sock \<noteq> []"
    and "count_list (room_sockets st (sock_id sock)) (sock_id sock) = 1"
  shows "filter (\<lambda>q. fst q = sock_id sock)
           (snd (on_send_private_message st sock d generated_id now addDoc_result)) =
         [(sock_id sock, receive_private_message (private_message uid sock d generated_id now)),
          (sock_id sock, receive_private_message (private_message uid sock d generated_id now))]"
proof -
  let ?message = "private_message uid sock d generated_id now"
  let ?st1 = "st\<lparr>messageStore := addMessageToStore (messageStore st) (room ?message) ?message\<rparr>"
  have "room_sockets ?st1 (sock_id sock) = room_sockets st (sock_id sock)"
    by (simp add: room_sockets_def)
  then have "filter (\<lambda>q. fst q = sock_id sock)
      (io_to ?st1 (sock_id sock) (receive_private_message ?message)) =
      [(sock_id sock, receive_private_message ?message)]"
    using assms(6) by (simp add: filter_io_to)
  then show ?thesis
    using assms(1-5)
    by (simp add: on_send_private_message_def Let_def socket_emit_def resolveConnection_def)
qed

lemma two_tabs_eq:
  "two_tabs = \<lparr>sids = [(str ''s1'', [str ''s1'']), (str ''s2'', [str ''s2''])],
     adapter_rooms = [(str ''s1'', [str ''s1'']), (str ''s2'', [str ''s2''])],
     onlineUsers = [(str ''s1'', \<lparr>odlserId = str ''alice'', username = str ''Alice'', rooms = [],
                      firebaseUid = Some (str ''fa'')\<rparr>),
                    (str ''s2'', \<lparr>odlserId = str ''alice'', username = str ''Alice'', rooms = [],
                      firebaseUid = Some (str ''fa'')\<rparr>)],
     userSockets = [(str ''alice'', str ''s2'')],
     messageStore = messageStore_init\<rparr>"
  by (simp add: two_tabs_def one_tab_def on_connection_def socket_join_def room_sockets_def
      register_def relay_init_def alice_tab1_def alice_tab2_def set_add_def Let_def)
    (simp add: str_def)

text \<open>
  Claim C10 as stated fails when the sender's identity has been registered again by a later
  connection: with Alice connected from two tabs, a message from the first tab to Alice's
  own id is echoed to the first tab once, and the recipient delivery goes to the second.
\<close>

theorem self_dm_delivered_once_to_older_tab:
  "map fst (snd (on_send_private_message two_tabs alice_tab1 self_dm (str ''msg_1'')
       (str ''2024-01-01T00:00:00.000Z'') (Inr (str ''doc1'')))) = [str ''s1'', str ''s2''] \<and>
   length (filter (\<lambda>q. fst q = sock_id alice_tab1)
     (snd (on_send_private_message two_tabs alice_tab1 self_dm (str ''msg_1'')
       (str ''2024-01-01T00:00:00.000Z'') (Inr (str ''doc1''))))) = 1"
  by (simp add: on_send_private_message_def two_tabs_eq alice_tab1_def self_dm_def Let_def
      socket_emit_def resolveConnection_def io_to_def room_sockets_def) (simp add: str_def)

text \<open>An instance: Alice, connected once, sends a message to her own id.\<close>

theorem self_dm_delivered_twice_witness:
  "length (filter (\<lambda>q. fst q = str ''s1'')
     (snd (on_send_private_message one_tab alice_tab1 self_dm (str ''msg_1'')
       (str ''2024-01-01T00:00:00.000Z'') (Inr (str ''doc1''))))) = 2"
proof -
  have a: "sock_odlserId alice_tab1 = Some (str ''alice'')" by (simp add: alice_tab1_def)
  have b: "str ''alice'' \<noteq> []" by (simp add: str_def)
  have c: "recipientId self_dm = str ''alice''" by (simp add: self_dm_def)
  have s: "sock_id alice_tab1 = str ''s1''" by (simp add: alice_tab1_def)
  have e: "resolveConnection one_tab (str ''alice'') = Some (sock_id alice_tab1)"
    by (simp add: resolveConnection_def one_tab_eq s)
  have f: "sock_id alice_tab1 \<noteq> []" by (simp add: s str_def)
  have g: "count_list (room_sockets one_tab (sock_id alice_tab1)) (sock_id alice_tab1) = 1"
    by (simp add: one_tab_eq room_sockets_def s)
  show ?thesis
    using self_dm_delivered_twice [OF a b c e f g, of "str ''msg_1''"
        "str ''2024-01-01T00:00:00.000Z''" "Inr (str ''doc1'')"]
    by (simp add: s)
qed

subsection \<open>Friend requests\<close>
















subsection \<open>Encryption layer\<close>

lemma unat_byte: "unat (of_nat (k mod 256) :: 8 word) = k mod 256"
  by (simp add: unat_of_nat)

lemma split_bytes:
  "(n::nat) mod 256 + 256 * (n div 256 mod 256) + 65536 * (n div 65536 mod 256)
      + 16777216 * (n div 16777216) = n"
proof -
  define r0 where "r0 = n mod 256"
  define q1 where "q1 = n div 256"
  define r1 where "r1 = q1 mod 256"
  define q2 where "q2 = q1 div 256"
  define r2 where "r2 = q2 mod 256"
  define q3 where "q3 = q2 div 256"
  have a: "n = r0 + 256 * q1" by (simp add: r0_def q1_def)
  have b: "q1 = r1 + 256 * q2" by (simp add: r1_def q2_def)
  have c: "q2 = r2 + 256 * q3" by (simp add: r2_def q3_def)
  have d2: "q2 = n div 65536" by (simp add: q2_def q1_def div_mult2_eq [symmetric])
  have d3: "q3 = n div 16777216" by (simp add: q3_def q2_def q1_def div_mult2_eq [symmetric])
  have "r0 + 256 * r1 + 65536 * r2 + 16777216 * q3 = n"
    using a b c by simp
  then show ?thesis
    by (simp add: r0_def r1_def r2_def q1_def d2 [symmetric] d3 [symmetric])
qed

lemma key_length_uint32_bytes:
  assumes "n < 2 ^ 32"
  shows "key_length (uint32_bytes n) = Inr (Some n)"
proof -
  have "n div 16777216 < 256" using assms by simp
  then have top: "n div 16777216 mod 256 = n div 16777216" by simp
  have "key_length (uint32_bytes n) =
      Inr (Some (n mod 256 + 256 * (n div 256 mod 256) + 65536 * (n div 65536 mod 256)
        + 16777216 * (n div 16777216 mod 256)))"
    by (simp only: uint32_bytes_def key_length.simps unat_byte)
  then show ?thesis
    by (simp only: top split_bytes)
qed

lemma length_uint32_bytes: "length (uint32_bytes n) = 4"
  by (simp add: uint32_bytes_def)

lemma byte_of_code_unit: "map ucast (map ucast (bs :: bytes) :: jsstring) = bs"
proof -
  have "ucast (ucast (b :: 8 word) :: 16 word) = b" for b
    by (simp add: ucast_up_ucast_id is_up)
  then show ?thesis by (simp add: comp_def)
qed

lemma parse_combined:
  assumes "length iv = 12" and "length wrapped < 2 ^ 32"
  shows "take 12 (iv @ uint32_bytes (length wrapped) @ wrapped @ ciphertext) = iv"
    and "key_length (take 4 (drop 12 (iv @ uint32_bytes (length wrapped) @ wrapped @ ciphertext))) =
           Inr (Some (length wrapped))"
    and "take (length wrapped) (drop 16 (iv @ uint32_bytes (length wrapped) @ wrapped @ ciphertext)) =
           wrapped"
    and "drop (16 + length wrapped) (iv @ uint32_bytes (length wrapped) @ wrapped @ ciphertext) =
           ciphertext"
  using assms by (simp_all add: length_uint32_bytes key_length_uint32_bytes)

lemma decryptMessage_fulfilled: "decryptMessage P encryptedData privateKey \<noteq> Inl e"
  by (simp add: decryptMessage_def split: sum.splits)

lemma decrypt_steps_parsed:
  assumes "length iv = 12" and "length wrapped < 2 ^ 32"
    and "atob P blob = Inr (map ucast (iv @ uint32_bytes (length wrapped) @ wrapped @ ciphertext))"
  shows "decrypt_steps P blob key =
     and_then (rsa_oaep_decrypt P key wrapped) (\<lambda>aesKeyData.
     and_then (import_raw P aesKeyData) (\<lambda>aesKey.
     and_then (aes_gcm_decrypt P aesKey iv ciphertext)
       (\<lambda>decryptedData. Inr (text_decode P decryptedData))))"
proof -
  have buffer: "base64ToArrayBuffer P blob =
      Inr (iv @ uint32_bytes (length wrapped) @ wrapped @ ciphertext)"
    by (simp only: base64ToArrayBuffer_def assms(3) and_then.simps byte_of_code_unit)
  note parsed = parse_combined [OF assms(1,2), of ciphertext]
  show ?thesis
    by (simp only: decrypt_steps_def buffer and_then.simps parsed option.case)
qed

text \<open>
  Claim C5, as amended. Take a twelve-byte IV and a platform on which, for this message and
  these keys, each step is undone by its counterpart: the private key unwraps what the
  public key wrapped, the imported key decrypts what the generated key encrypted,
  \<^verbatim>\<open>atob\<close> reads what \<^verbatim>\<open>btoa\<close> wrote, and the decoder returns the encoded message.
  Then \<^verbatim>\<open>decryptMessage\<close> of the blob that \<^verbatim>\<open>encryptMessage\<close> returns is the message.
  With a private key for which the unwrapping is rejected, \<^verbatim>\<open>decryptMessage\<close> returns the
  string \<^verbatim>\<open>[Unable to decrypt message]\<close>; and \<^verbatim>\<open>decryptMessage\<close> never fails, whatever
  its arguments.
\<close>

theorem encrypt_decrypt_roundtrip:
  assumes "length iv = 12"
    and "aes_gcm_encrypt P aesKey iv (text_encode P message) = Inr ciphertext"
    and "export_raw P aesKey = Inr rawKey"
    and "rsa_oaep_encrypt P publicKey rawKey = Inr wrapped"
    and "length wrapped < 2 ^ 32"
    and "btoa P (map ucast (iv @ uint32_bytes (length wrapped) @ wrapped @ ciphertext)) = Inr blob"
    and "atob P blob = Inr (map ucast (iv @ uint32_bytes (length wrapped) @ wrapped @ ciphertext))"
    and "rsa_oaep_decrypt P privateKey wrapped = Inr rawKey"
    and "import_raw P rawKey = Inr importedKey"
    and "aes_gcm_decrypt P importedKey iv ciphertext = Inr (text_encode P message)"
    and "text_decode P (text_encode P message) = message"
  shows "encryptMessage P message publicKey aesKey iv = Inr blob \<and>
         decryptMessage P blob privateKey = Inr message \<and>
         (rsa_oaep_decrypt P otherKey wrapped = Inl e \<longrightarrow>
            decryptMessage P blob otherKey = Inr (str ''[Unable to decrypt message]'')) \<and>
         decryptMessage P anyData anyKey \<noteq> Inl e'"
proof -
  have enc: "encryptMessage P message publicKey aesKey iv = Inr blob"
    using assms(2,3,4,6) by (simp add: encryptMessage_def arrayBufferToBase64_def)
  have steps: "decrypt_steps P blob key =
     and_then (rsa_oaep_decrypt P key wrapped) (\<lambda>aesKeyData.
     and_then (import_raw P aesKeyData) (\<lambda>aesKey.
     and_then (aes_gcm_decrypt P aesKey iv ciphertext)
       (\<lambda>decryptedData. Inr (text_decode P decryptedData))))" for key
    using assms(1,5,7) by (rule decrypt_steps_parsed)
  have dec: "decryptMessage P blob privateKey = Inr message"
    using assms(8,9,10,11) by (simp add: decryptMessage_def steps)
  have other: "rsa_oaep_decrypt P otherKey wrapped = Inl e \<longrightarrow>
      decryptMessage P blob otherKey = Inr (str ''[Unable to decrypt message]'')"
    by (simp add: decryptMessage_def steps)
  have never: "decryptMessage P anyData anyKey \<noteq> Inl e'"
    by (rule decryptMessage_fulfilled)
  from enc dec other never show ?thesis by (simp only: simp_thms)
qed

lemma example_blob_eq:
  "example_blob = map ucast (example_iv @ uint32_bytes (length [1, 1, 2, 3, 4 :: 8 word]) @
      [1, 1, 2, 3, 4] @ rev (map ucast (str ''secret'')))"
  by (simp add: example_blob_def uint32_bytes_def)

text \<open>
  Claim C5 as stated fails in its second half: decrypting, with the private key 2, a blob
  that was encrypted for the public key 1 does not fail. The unwrapping is rejected, the
  \<^verbatim>\<open>catch\<close> block takes over, and the caller gets the string
  \<^verbatim>\<open>[Unable to decrypt message]\<close> as if it were the plaintext.
\<close>

theorem mismatched_key_returns_placeholder:
  "decryptMessage test_platform example_blob 2 = Inr (str ''[Unable to decrypt message]'') \<and>
   encryptMessage test_platform (str ''secret'') 1 example_key example_iv = Inr example_blob \<and>
   decryptMessage test_platform example_blob 1 = Inr (str ''secret'')"
proof -
  have atob: "atob test_platform example_blob = Inr (map ucast (example_iv @
      uint32_bytes (length [1, 1, 2, 3, 4 :: 8 word]) @ [1, 1, 2, 3, 4] @ rev (map ucast (str ''secret''))))"
    by (simp only: example_blob_eq) (simp add: test_platform_def)
  have len: "length example_iv = 12" by (simp add: example_iv_def)
  have steps: "decrypt_steps test_platform example_blob key =
     and_then (rsa_oaep_decrypt test_platform key [1, 1, 2, 3, 4]) (\<lambda>aesKeyData.
     and_then (import_raw test_platform aesKeyData) (\<lambda>aesKey.
     and_then (aes_gcm_decrypt test_platform aesKey example_iv (rev (map ucast (str ''secret''))))
       (\<lambda>decryptedData. Inr (text_decode test_platform decryptedData))))" for key
    by (rule decrypt_steps_parsed [OF len _ atob]) simp
  have wrong: "decryptMessage test_platform example_blob 2 = Inr (str ''[Unable to decrypt message]'')"
    by (simp add: decryptMessage_def steps) (simp add: test_platform_def)
  have enc: "encryptMessage test_platform (str ''secret'') 1 example_key example_iv = Inr example_blob"
    by (simp add: encryptMessage_def arrayBufferToBase64_def test_platform_def example_blob_eq
        example_key_def)
  have right: "decryptMessage test_platform example_blob 1 = Inr (str ''secret'')"
    by (simp add: decryptMessage_def steps) (simp add: test_platform_def comp_def str_def)
  from wrong enc right show ?thesis by (simp only: simp_thms)
qed

text \<open>An instance on the stand-in platform, with the key pair 7 and the foreign key 8.\<close>

theorem encrypt_decrypt_roundtrip_witness:
  "encryptMessage test_platform (str ''hi'') 7 example_key example_iv =
     Inr (map ucast (example_iv @ [5, 0, 0, 0] @ [7, 1, 2, 3, 4] @ [0x69, 0x68])) \<and>
   decryptMessage test_platform
     (map ucast (example_iv @ [5, 0, 0, 0] @ [7, 1, 2, 3, 4] @ [0x69, 0x68])) 7 = Inr (str ''hi'') \<and>
   decryptMessage test_platform
     (map ucast (example_iv @ [5, 0, 0, 0] @ [7, 1, 2, 3, 4] @ [0x69, 0x68])) 8 =
     Inr (str ''[Unable to decrypt message]'')"
proof -
  have u: "uint32_bytes (length [7, 1, 2, 3, 4 :: 8 word]) = [5, 0, 0, 0]"
    by (simp add: uint32_bytes_def)
  have h1: "length example_iv = 12" by (simp add: example_iv_def)
  have h2: "aes_gcm_encrypt test_platform example_key example_iv
      (text_encode test_platform (str ''hi'')) = Inr [0x69, 0x68]"
    by (simp add: test_platform_def str_def)
  have h3: "export_raw test_platform example_key = Inr [1, 2, 3, 4]"
    by (simp add: test_platform_def example_key_def)
  have h4: "rsa_oaep_encrypt test_platform 7 [1, 2, 3, 4] = Inr [7, 1, 2, 3, 4]"
    by (simp add: test_platform_def)
  have h5: "length [7, 1, 2, 3, 4 :: 8 word] < 2 ^ 32" by simp
  have h6: "btoa test_platform (map ucast (example_iv @ uint32_bytes (length [7, 1, 2, 3, 4 :: 8 word])
      @ [7, 1, 2, 3, 4] @ [0x69, 0x68])) =
      Inr (map ucast (example_iv @ [5, 0, 0, 0] @ [7, 1, 2, 3, 4] @ [0x69, 0x68]))"
    by (simp only: u) (simp add: test_platform_def)
  have h7: "atob test_platform (map ucast (example_iv @ [5, 0, 0, 0] @ [7, 1, 2, 3, 4] @ [0x69, 0x68])) =
      Inr (map ucast (example_iv @ uint32_bytes (length [7, 1, 2, 3, 4 :: 8 word])
      @ [7, 1, 2, 3, 4] @ [0x69, 0x68]))"
    by (simp only: u) (simp add: test_platform_def)
  have h8: "rsa_oaep_decrypt test_platform 7 [7, 1, 2, 3, 4] = Inr [1, 2, 3, 4]"
    by (simp add: test_platform_def)
  have h9: "import_raw test_platform [1, 2, 3, 4] = Inr [1, 2, 3, 4]"
    by (simp add: test_platform_def)
  have h10: "aes_gcm_decrypt test_platform [1, 2, 3, 4] example_iv [0x69, 0x68] =
      Inr (text_encode test_platform (str ''hi''))"
    by (simp add: test_platform_def str_def)
  have h11: "text_decode test_platform (text_encode test_platform (str ''hi'')) = str ''hi''"
    by (simp add: test_platform_def str_def)
  have wrong: "rsa_oaep_decrypt test_platform 8 [7, 1, 2, 3, 4] = Inl OperationError"
    by (simp add: test_platform_def)
  show ?thesis
    using encrypt_decrypt_roundtrip [OF h1 h2 h3 h4 h5 h6 h7 h8 h9 h10 h11,
        where otherKey = 8 and e = OperationError] wrong
    by simp
qed

text \<open>
  Claim C9. Whenever the lookup of the recipient's public key gives no key, \<^verbatim>\<open>encrypt\<close>
  returns the message itself, with no marker put before it; and the lookup gives no key
  when the cache has none for the recipient and the key directory answers with a response
  that is not \<^verbatim>\<open>ok\<close> (or the request fails), in which case the cache is left as it was.
\<close>

theorem encrypt_fails_open_without_key:
  "(fst (getRecipientPublicKey P publicKeyCache fetched rid) = None \<longrightarrow>
      fst (encrypt P isReady publicKeyCache fetched aesKey iv message rid) = message) \<and>
   (map_of publicKeyCache rid = None \<and> (fetched = not_ok \<or> fetched = fetch_rejected) \<longrightarrow>
      encrypt P isReady publicKeyCache fetched aesKey iv message rid = (message, publicKeyCache))"
  by (auto simp: encrypt_def getRecipientPublicKey_def split: prod.splits option.splits)

text \<open>An instance: the directory has no key for Bob.\<close>

theorem encrypt_fails_open_without_key_witness:
  "encrypt test_platform True [] not_ok example_key example_iv (str ''secret'') (str ''bob'') =
     (str ''secret'', [])"
  using encrypt_fails_open_without_key [of test_platform "[]" not_ok "str ''bob''" True
      example_key example_iv "str ''secret''"]
  by simp

end
